theory Spec2Isabelle
  imports Main "HOL-Library.Sublist"
begin

section \<open>The book-record API service\<close>

text \<open>
  A shallow embedding of the Express server of the book management application: the
  in-memory store (\<open>books\<close>, \<open>nextId\<close>), the validation chains \<open>bookValidation\<close> with
  \<open>handleValidationErrors\<close>, the helper \<open>findBookById\<close> and the six route handlers.

  Conventions of the model.
  \<^item> Strings are \<^typ>\<open>string\<close>. Case conversion and white space are those of the ASCII
    range: \<open>toLowerCase\<close> maps \<open>A\<close>..\<open>Z\<close> to \<open>a\<close>..\<open>z\<close> and leaves every other character,
    white space is HT, LF, VT, FF, CR and SP.
  \<^item> JavaScript numbers that hold integers are \<^typ>\<open>int\<close>; \<open>NaN\<close> is \<open>None\<close> of
    \<^typ>\<open>int option\<close>. The id counter and the parsed ids are taken below \<open>2^53\<close>, where
    the arithmetic of JavaScript numbers is exact.
  \<^item> \<open>new Date().toISOString()\<close> reads the clock. Every reading is an explicit argument of
    the operation that takes it, as milliseconds in \<^typ>\<open>int\<close>; the ISO-8601 rendering
    has a fixed width, so comparing the rendered strings is comparing the readings. A
    property that orders timestamps says which order of the readings it needs.
  \<^item> The request body reaches the validators as strings: the fields \<open>title\<close>, \<open>author\<close>,
    \<open>genre\<close>, \<open>description\<close>, and \<open>publicationYear\<close> in the string form that the validation
    library tests and that \<open>parseInt\<close> parses.
  \<^item> The \<open>catch\<close> branches of the handlers (status 500) are not reached on such bodies:
    every value a handler calls a string method on is a string. They are left out.
\<close>

subsection \<open>Strings\<close>

definition isWhiteSpace :: "char \<Rightarrow> bool" where
  "isWhiteSpace c =
     (c = CHR 0x09 \<or> c = CHR 0x0A \<or> c = CHR 0x0B \<or> c = CHR 0x0C \<or> c = CHR 0x0D \<or> c = CHR 0x20)"

text \<open>\<open>String.prototype.trim\<close>, and the \<open>trim\<close> sanitizer of the validation library.\<close>

definition trim :: "string \<Rightarrow> string" where
  "trim s = rev (dropWhile isWhiteSpace (rev (dropWhile isWhiteSpace s)))"

definition lowerChar :: "char \<Rightarrow> char" where
  "lowerChar c =
     (let n = (of_char c :: nat) in if 65 \<le> n \<and> n \<le> 90 then char_of (n + 32) else c)"

definition toLowerCase :: "string \<Rightarrow> string" where
  "toLowerCase s = map lowerChar s"

text \<open>\<open>s.includes(q)\<close>: \<open>q\<close> occurs in \<open>s\<close> as a contiguous run of characters.\<close>

fun includesStr :: "string \<Rightarrow> string \<Rightarrow> bool" where
  "includesStr [] q = (q = [])"
| "includesStr (c # s) q = (prefix q (c # s) \<or> includesStr s q)"

subsection \<open>Numbers read from strings\<close>

text \<open>The value of a character as a digit: \<open>0\<close>..\<open>9\<close>, then the letters in either case.\<close>

definition digitVal :: "char \<Rightarrow> nat option" where
  "digitVal c =
     (let n = (of_char c :: nat) in
      if 48 \<le> n \<and> n \<le> 57 then Some (n - 48)
      else if 97 \<le> n \<and> n \<le> 122 then Some (n - 87)
      else if 65 \<le> n \<and> n \<le> 90 then Some (n - 55)
      else None)"

definition isRadixDigit :: "nat \<Rightarrow> char \<Rightarrow> bool" where
  "isRadixDigit r c = (case digitVal c of None \<Rightarrow> False | Some d \<Rightarrow> d < r)"

definition digitsValue :: "nat \<Rightarrow> string \<Rightarrow> nat" where
  "digitsValue r z = foldl (\<lambda>acc c. acc * r + (case digitVal c of None \<Rightarrow> 0 | Some d \<Rightarrow> d)) 0 z"

text \<open>
  The global \<open>parseInt(string)\<close> without a radix: leading white space is skipped, one sign
  is read, a prefix \<open>0x\<close> or \<open>0X\<close> selects radix 16 (radix 10 otherwise), and the longest
  run of digits of the radix is the value; with no digit the result is \<open>NaN\<close>.
\<close>

definition parseInt :: "string \<Rightarrow> int option" where
  "parseInt s =
     (let s1 = dropWhile isWhiteSpace s;
          neg = (take 1 s1 = ''-'');
          s2 = (if take 1 s1 = ''-'' \<or> take 1 s1 = ''+'' then drop 1 s1 else s1);
          hex = (take 2 s2 = ''0x'' \<or> take 2 s2 = ''0X'');
          r = (if hex then 16 else 10);
          s3 = (if hex then drop 2 s2 else s2);
          z = takeWhile (isRadixDigit r) s3
      in if z = [] then None
         else Some ((if neg then - 1 else 1) * int (digitsValue r z)))"

text \<open>
  \<open>isInt(str, {min, max})\<close> of the validation library: \<open>str\<close> matches
  \<open>/^[-+]?[0-9]+$/\<close> and, read as a number, lies between \<open>min\<close> and \<open>max\<close>.
\<close>

definition isDecDigit :: "char \<Rightarrow> bool" where
  "isDecDigit c = isRadixDigit 10 c"

definition unsignedPart :: "string \<Rightarrow> string" where
  "unsignedPart str = (if take 1 str = ''-'' \<or> take 1 str = ''+'' then drop 1 str else str)"

definition matchesInt :: "string \<Rightarrow> bool" where
  "matchesInt str = (unsignedPart str \<noteq> [] \<and> list_all isDecDigit (unsignedPart str))"

definition toNumber :: "string \<Rightarrow> int" where
  "toNumber str =
     (if take 1 str = ''-'' then - int (digitsValue 10 (unsignedPart str))
      else int (digitsValue 10 (unsignedPart str)))"

definition isInt :: "string \<Rightarrow> int \<Rightarrow> int \<Rightarrow> bool" where
  "isInt str mn mx = (matchesInt str \<and> mn \<le> toNumber str \<and> toNumber str \<le> mx)"

fun showNat :: "nat \<Rightarrow> string" where
  "showNat n =
     (if n < 10 then [char_of (48 + n)] else showNat (n div 10) @ [char_of (48 + n mod 10)])"

declare showNat.simps [simp del]

subsection \<open>Records and the store\<close>

type_synonym timestamp = int

text \<open>
  The five fields a request body and a stored book share; \<open>'y\<close> is the type of
  \<open>publicationYear\<close>: a string in the body, a number in the store.
\<close>

record 'y fields =
  title :: string
  author :: string
  genre :: string
  publicationYear :: 'y
  description :: string

type_synonym payload = "string fields"

record book = "int option fields" +
  ident :: int
  createdAt :: timestamp
  updatedAt :: timestamp

record store =
  books :: "book list"
  nextId :: int

text \<open>
  The store as the module leaves it when it is loaded. \<open>clk k\<close> is the \<open>k\<close>-th reading of
  the clock taken by the six \<open>new Date()\<close> calls of the array literal.
\<close>

definition seedBooks :: "(nat \<Rightarrow> timestamp) \<Rightarrow> book list" where
  "seedBooks clk =
     [\<lparr>title = ''The Great Gatsby'', author = ''F. Scott Fitzgerald'', genre = ''Fiction'',
       publicationYear = Some 1925,
       description = ''A classic American novel set in the Jazz Age.'',
       ident = 1, createdAt = clk 0, updatedAt = clk 1\<rparr>,
      \<lparr>title = ''To Kill a Mockingbird'', author = ''Harper Lee'', genre = ''Fiction'',
       publicationYear = Some 1960,
       description = ''A gripping tale of racial injustice and childhood innocence.'',
       ident = 2, createdAt = clk 2, updatedAt = clk 3\<rparr>,
      \<lparr>title = ''1984'', author = ''George Orwell'', genre = ''Dystopian Fiction'',
       publicationYear = Some 1949,
       description = ''A dystopian social science fiction novel about totalitarian control.'',
       ident = 3, createdAt = clk 4, updatedAt = clk 5\<rparr>]"

definition seed :: "(nat \<Rightarrow> timestamp) \<Rightarrow> store" where
  "seed clk = \<lparr>books = seedBooks clk, nextId = 4\<rparr>"

subsection \<open>Responses\<close>

text \<open>An entry of \<open>errors.array()\<close>: the field it is about and the message of the failed check.\<close>

record verror =
  path :: string
  msg :: string

text \<open>
  The JSON bodies the handlers send, beside the \<open>success\<close> flag: \<open>{data, count}\<close>,
  \<open>{data}\<close>, \<open>{message}\<close>, \<open>{message, data}\<close>, \<open>{message, errors}\<close> and
  \<open>{data, count, query}\<close>.
\<close>

datatype reply =
    DataCount "book list" nat
  | Data book
  | Message string
  | MessageData string book
  | MessageErrors string "verror list"
  | DataCountQuery "book list" nat string

record response =
  status :: nat
  success :: bool
  reply :: reply

subsection \<open>Validation\<close>

definition isLength :: "string \<Rightarrow> nat \<Rightarrow> nat \<Rightarrow> bool" where
  "isLength s mn mx = (mn \<le> length s \<and> length s \<le> mx)"

definition genres :: "string list" where
  "genres = [''Fiction'', ''Non-Fiction'', ''Mystery'', ''Romance'', ''Science Fiction'',
     ''Fantasy'', ''Biography'', ''History'', ''Dystopian Fiction'', ''Other'']"

text \<open>One validator of a chain with its \<open>withMessage\<close>: it adds its error when it fails.\<close>

definition check :: "bool \<Rightarrow> string \<Rightarrow> string \<Rightarrow> verror list" where
  "check ok p m = (if ok then [] else [\<lparr>path = p, msg = m\<rparr>])"

text \<open>
  The sanitizers of the chains: \<open>trim()\<close> on four fields, written back to the request body,
  so that the handler reads the trimmed strings.
\<close>

definition sanitize :: "payload \<Rightarrow> payload" where
  "sanitize p =
     p\<lparr>title := trim (title p), author := trim (author p), genre := trim (genre p),
       description := trim (description p)\<rparr>"

text \<open>
  \<open>bookValidation\<close>: the five chains in their order, every validator of a chain run on the
  sanitized value. \<open>yr\<close> is \<open>new Date().getFullYear()\<close> as read when the module is loaded.
\<close>

definition bookValidation :: "nat \<Rightarrow> payload \<Rightarrow> verror list" where
  "bookValidation yr p =
     (let q = sanitize p in
      check (title q \<noteq> []) ''title'' ''Title is required''
      @ check (isLength (title q) 1 200) ''title'' ''Title must be between 1 and 200 characters''
      @ check (author q \<noteq> []) ''author'' ''Author is required''
      @ check (isLength (author q) 1 100) ''author''
          ''Author must be between 1 and 100 characters''
      @ check (genre q \<noteq> []) ''genre'' ''Genre is required''
      @ check (genre q \<in> set genres) ''genre'' ''Invalid genre''
      @ check (isInt (publicationYear q) 1000 (int yr)) ''publicationYear''
          (''Publication year must be between 1000 and '' @ showNat yr)
      @ check (description q \<noteq> []) ''description'' ''Description is required''
      @ check (isLength (description q) 1 1000) ''description''
          ''Description must be between 1 and 1000 characters'')"

text \<open>\<open>handleValidationErrors\<close>: the response it sends, or \<open>None\<close> when it calls \<open>next()\<close>.\<close>

definition handleValidationErrors :: "verror list \<Rightarrow> response option" where
  "handleValidationErrors errs =
     (if errs \<noteq> [] then
        Some \<lparr>status = 400, success = False, reply = MessageErrors ''Validation failed'' errs\<rparr>
      else None)"

subsection \<open>Handlers\<close>

definition findBookById :: "book list \<Rightarrow> string \<Rightarrow> book option" where
  "findBookById bs i = find (\<lambda>book. Some (ident book) = parseInt i) bs"

fun findIndex :: "('a \<Rightarrow> bool) \<Rightarrow> 'a list \<Rightarrow> nat option" where
  "findIndex P [] = None"
| "findIndex P (x # xs) = (if P x then Some 0 else map_option Suc (findIndex P xs))"

definition notFound :: response where
  "notFound = \<lparr>status = 404, success = False, reply = Message ''Book not found''\<rparr>"

definition conflict :: response where
  "conflict = \<lparr>status = 409, success = False,
     reply = Message ''A book with this title and author already exists''\<rparr>"

text \<open>\<open>GET /api/books\<close>\<close>

definition getBooks :: "store \<Rightarrow> response" where
  "getBooks st = \<lparr>status = 200, success = True, reply = DataCount (books st) (length (books st))\<rparr>"

text \<open>\<open>GET /api/books/:id\<close>\<close>

definition getBook :: "store \<Rightarrow> string \<Rightarrow> response" where
  "getBook st i =
     (case findBookById (books st) i of
        None \<Rightarrow> notFound
      | Some book \<Rightarrow> \<lparr>status = 200, success = True, reply = Data book\<rparr>)"

text \<open>The test both duplicate checks apply to a stored book.\<close>

definition sameTitleAuthor :: "string \<Rightarrow> string \<Rightarrow> book \<Rightarrow> bool" where
  "sameTitleAuthor t a book =
     (toLowerCase (title book) = toLowerCase t \<and> toLowerCase (author book) = toLowerCase a)"

text \<open>
  \<open>POST /api/books\<close>, the handler after the validation middleware. \<open>t1\<close> and \<open>t2\<close> are the
  two readings of the clock for \<open>createdAt\<close> and \<open>updatedAt\<close>.
\<close>

definition createBook :: "store \<Rightarrow> payload \<Rightarrow> timestamp \<Rightarrow> timestamp \<Rightarrow> response \<times> store" where
  "createBook st p t1 t2 =
     (case find (sameTitleAuthor (title p) (author p)) (books st) of
        Some existingBook \<Rightarrow> (conflict, st)
      | None \<Rightarrow>
          (let newBook =
                 \<lparr>title = trim (title p), author = trim (author p), genre = trim (genre p),
                  publicationYear = parseInt (publicationYear p),
                  description = trim (description p),
                  ident = nextId st, createdAt = t1, updatedAt = t2\<rparr>
           in (\<lparr>status = 201, success = True,
                 reply = MessageData ''Book created successfully'' newBook\<rparr>,
               \<lparr>books = books st @ [newBook], nextId = nextId st + 1\<rparr>)))"

definition postBooks :: "nat \<Rightarrow> store \<Rightarrow> payload \<Rightarrow> timestamp \<Rightarrow> timestamp \<Rightarrow> response \<times> store" where
  "postBooks yr st p t1 t2 =
     (case handleValidationErrors (bookValidation yr p) of
        Some r \<Rightarrow> (r, st)
      | None \<Rightarrow> createBook st (sanitize p) t1 t2)"

text \<open>\<open>PUT /api/books/:id\<close>, the handler after the validation middleware.\<close>

definition updateBook :: "store \<Rightarrow> string \<Rightarrow> payload \<Rightarrow> timestamp \<Rightarrow> response \<times> store" where
  "updateBook st i p t =
     (case findIndex (\<lambda>book. Some (ident book) = parseInt i) (books st) of
        None \<Rightarrow> (notFound, st)
      | Some bookIndex \<Rightarrow>
          (case find (\<lambda>book. Some (ident book) \<noteq> parseInt i
                         \<and> sameTitleAuthor (title p) (author p) book) (books st) of
             Some existingBook \<Rightarrow> (conflict, st)
           | None \<Rightarrow>
               (let updatedBook =
                      (books st ! bookIndex)
                        \<lparr>title := trim (title p), author := trim (author p),
                         genre := trim (genre p),
                         publicationYear := parseInt (publicationYear p),
                         description := trim (description p), updatedAt := t\<rparr>
                in (\<lparr>status = 200, success = True,
                      reply = MessageData ''Book updated successfully'' updatedBook\<rparr>,
                    st\<lparr>books := (books st)[bookIndex := updatedBook]\<rparr>))))"

definition putBook :: "nat \<Rightarrow> store \<Rightarrow> string \<Rightarrow> payload \<Rightarrow> timestamp \<Rightarrow> response \<times> store" where
  "putBook yr st i p t =
     (case handleValidationErrors (bookValidation yr p) of
        Some r \<Rightarrow> (r, st)
      | None \<Rightarrow> updateBook st i (sanitize p) t)"

text \<open>\<open>DELETE /api/books/:id\<close>; \<open>splice(bookIndex, 1)\<close> takes the element out of the array.\<close>

definition deleteBook :: "store \<Rightarrow> string \<Rightarrow> response \<times> store" where
  "deleteBook st i =
     (case findIndex (\<lambda>book. Some (ident book) = parseInt i) (books st) of
        None \<Rightarrow> (notFound, st)
      | Some bookIndex \<Rightarrow>
          (\<lparr>status = 200, success = True,
            reply = MessageData ''Book deleted successfully'' (books st ! bookIndex)\<rparr>,
           st\<lparr>books := take bookIndex (books st) @ drop (Suc bookIndex) (books st)\<rparr>))"

text \<open>\<open>GET /api/books/search/:query\<close>\<close>

definition matchesQuery :: "string \<Rightarrow> book \<Rightarrow> bool" where
  "matchesQuery query book =
     (includesStr (toLowerCase (title book)) query
      \<or> includesStr (toLowerCase (author book)) query
      \<or> includesStr (toLowerCase (genre book)) query
      \<or> includesStr (toLowerCase (description book)) query)"

definition searchBooks :: "store \<Rightarrow> string \<Rightarrow> response" where
  "searchBooks st q =
     (let query = trim (toLowerCase q) in
      if query = [] then
        \<lparr>status = 400, success = False, reply = Message ''Search query is required''\<rparr>
      else
        (let results = filter (matchesQuery query) (books st)
         in \<lparr>status = 200, success = True, reply = DataCountQuery results (length results) q\<rparr>))"

subsection \<open>Requests and runs\<close>

text \<open>
  A request with what its handler reads from outside: the path parameter, the body, and the
  readings the clock gives while it is served.
\<close>

datatype request =
    GetBooks
  | GetBook string
  | PostBooks payload timestamp timestamp
  | PutBook string payload timestamp
  | DeleteBook string
  | SearchBooks string

fun handle :: "nat \<Rightarrow> store \<Rightarrow> request \<Rightarrow> response \<times> store" where
  "handle yr st GetBooks = (getBooks st, st)"
| "handle yr st (GetBook i) = (getBook st i, st)"
| "handle yr st (PostBooks p t1 t2) = postBooks yr st p t1 t2"
| "handle yr st (PutBook i p t) = putBook yr st i p t"
| "handle yr st (DeleteBook i) = deleteBook st i"
| "handle yr st (SearchBooks q) = (searchBooks st q, st)"

text \<open>Requests are served one after the other; \<open>run\<close> is the store after all of them.\<close>

fun run :: "nat \<Rightarrow> store \<Rightarrow> request list \<Rightarrow> store" where
  "run yr st [] = st"
| "run yr st (r # rs) = run yr (snd (handle yr st r)) rs"

text \<open>The responses of a run, in order.\<close>

fun responses :: "nat \<Rightarrow> store \<Rightarrow> request list \<Rightarrow> response list" where
  "responses yr st [] = []"
| "responses yr st (r # rs) = fst (handle yr st r) # responses yr (snd (handle yr st r)) rs"



subsection \<open>Properties of a store\<close>

text \<open>The pair the duplicate checks compare: title and author, both in lower case.\<close>

definition titleAuthorKey :: "book \<Rightarrow> string \<times> string" where
  "titleAuthorKey b = (toLowerCase (title b), toLowerCase (author b))"


text \<open>Ids are distinct and the counter is above every id in the store.\<close>

definition wfStore :: "store \<Rightarrow> bool" where
  "wfStore st =
     (distinct (map ident (books st)) \<and> list_all (\<lambda>b. ident b < nextId st) (books st))"

text \<open>The records a response carries in its \<open>data\<close>.\<close>

fun booksOf :: "reply \<Rightarrow> book list" where
  "booksOf (DataCount bs n) = bs"
| "booksOf (Data b) = [b]"
| "booksOf (Message m) = []"
| "booksOf (MessageData m b) = [b]"
| "booksOf (MessageErrors m es) = []"
| "booksOf (DataCountQuery bs n q) = bs"

text \<open>The ids that the successful creates of a list of responses returned, in order.\<close>

fun createdIds :: "response list \<Rightarrow> int list" where
  "createdIds [] = []"
| "createdIds (r # rs) =
     (if status r = 201 then map ident (booksOf (reply r)) else []) @ createdIds rs"



subsection \<open>Sample inputs\<close>

text \<open>A clock that advances by one millisecond at every reading while the module loads.\<close>

definition loadClock :: "nat \<Rightarrow> timestamp" where
  "loadClock k = int k"

definition dune :: payload where
  "dune = \<lparr>title = '' Dune '', author = ''Frank Herbert'', genre = ''Science Fiction'',
     publicationYear = ''1965'', description = ''Melange and sandworms.''\<rparr>"


definition hobbit :: payload where
  "hobbit = \<lparr>title = ''The Hobbit'', author = ''J. R. R. Tolkien'', genre = ''Fantasy'',
     publicationYear = ''1937'', description = ''There and back again.''\<rparr>"


section \<open>Basic facts\<close>

subsection \<open>Strings and lists\<close>

lemma trim_trim: "trim (trim s) = trim s"
proof (cases "dropWhile isWhiteSpace s")
  case Nil
  show ?thesis unfolding trim_def Nil by simp
next
  case (Cons x u)
  then have nx: "\<not> isWhiteSpace x"
    by (metis hd_dropWhile list.distinct(1) list.sel(1))
  have "trim s = x # rev (dropWhile isWhiteSpace (rev u))"
    unfolding trim_def Cons using nx by (simp add: dropWhile_append3)
  then show ?thesis
    using nx by (simp add: trim_def dropWhile_append3)
qed




lemma findIndex_Some:
  "findIndex P xs = Some k \<Longrightarrow> k < length xs \<and> P (xs ! k) \<and> (\<forall>j<k. \<not> P (xs ! j))"
proof (induction xs arbitrary: k)
  case Nil
  then show ?case by simp
next
  case (Cons x xs)
  show ?case
  proof (cases "P x")
    case True
    with Cons.prems show ?thesis by simp
  next
    case False
    with Cons.prems obtain k' where k': "findIndex P xs = Some k'" "k = Suc k'"
      by auto
    from Cons.IH [OF k'(1)] False k'(2) show ?thesis
      by (auto simp: less_Suc_eq_0_disj)
  qed
qed

lemma find_findIndex: "find P xs = map_option (\<lambda>k. xs ! k) (findIndex P xs)"
  by (induction xs) (auto simp: option.map_comp comp_def)

subsection \<open>Parsing integers\<close>











subsection \<open>The validation middleware and the update handler\<close>


lemma sanitize_simps:
  "title (sanitize p) = trim (title p)" "author (sanitize p) = trim (author p)"
  "genre (sanitize p) = trim (genre p)" "description (sanitize p) = trim (description p)"
  "publicationYear (sanitize p) = publicationYear p"
  by (simp_all add: sanitize_def)



lemma postBooks_invalid:
  "bookValidation yr p \<noteq> [] \<Longrightarrow>
   postBooks yr st p t1 t2 =
     (\<lparr>status = 400, success = False,
       reply = MessageErrors ''Validation failed'' (bookValidation yr p)\<rparr>, st)"
  by (simp add: postBooks_def handleValidationErrors_def)

lemma putBook_invalid:
  "bookValidation yr p \<noteq> [] \<Longrightarrow>
   putBook yr st i p t =
     (\<lparr>status = 400, success = False,
       reply = MessageErrors ''Validation failed'' (bookValidation yr p)\<rparr>, st)"
  by (simp add: putBook_def handleValidationErrors_def)

lemma postBooks_valid:
  "bookValidation yr p = [] \<Longrightarrow> postBooks yr st p t1 t2 = createBook st (sanitize p) t1 t2"
  by (simp add: postBooks_def handleValidationErrors_def)

lemma putBook_valid:
  "bookValidation yr p = [] \<Longrightarrow> putBook yr st i p t = updateBook st i (sanitize p) t"
  by (simp add: putBook_def handleValidationErrors_def)

text \<open>The three outcomes of the update handler.\<close>

lemma updateBook_notFound:
  "findIndex (\<lambda>b. Some (ident b) = parseInt i) (books st) = None \<Longrightarrow>
   updateBook st i p t = (notFound, st)"
  by (simp add: updateBook_def)

lemma updateBook_conflict:
  "findIndex (\<lambda>b. Some (ident b) = parseInt i) (books st) = Some k \<Longrightarrow>
   \<exists>b\<in>set (books st). Some (ident b) \<noteq> parseInt i \<and> sameTitleAuthor (title p) (author p) b \<Longrightarrow>
   updateBook st i p t = (conflict, st)"
  by (auto simp: updateBook_def find_None_iff split: option.splits)

lemma updateBook_ok:
  "findIndex (\<lambda>b. Some (ident b) = parseInt i) (books st) = Some k \<Longrightarrow>
   \<forall>b\<in>set (books st). sameTitleAuthor (title p) (author p) b \<longrightarrow> Some (ident b) = parseInt i \<Longrightarrow>
   updateBook st i p t =
     (\<lparr>status = 200, success = True,
       reply = MessageData ''Book updated successfully''
         ((books st ! k)
            \<lparr>title := trim (title p), author := trim (author p), genre := trim (genre p),
             publicationYear := parseInt (publicationYear p),
             description := trim (description p), updatedAt := t\<rparr>)\<rparr>,
      st\<lparr>books := (books st)
         [k := (books st ! k)
            \<lparr>title := trim (title p), author := trim (author p), genre := trim (genre p),
             publicationYear := parseInt (publicationYear p),
             description := trim (description p), updatedAt := t\<rparr>]\<rparr>)"
proof -
  assume k: "findIndex (\<lambda>b. Some (ident b) = parseInt i) (books st) = Some k"
    and "\<forall>b\<in>set (books st). sameTitleAuthor (title p) (author p) b \<longrightarrow> Some (ident b) = parseInt i"
  then have "find (\<lambda>b. Some (ident b) \<noteq> parseInt i \<and> sameTitleAuthor (title p) (author p) b)
      (books st) = None"
    by (auto simp: find_None_iff)
  with k show ?thesis by (simp add: updateBook_def Let_def)
qed



section \<open>The update in place\<close>



section \<open>Creating a record\<close>

lemma createBook_conflict:
  "\<exists>b\<in>set (books st). sameTitleAuthor (title p) (author p) b \<Longrightarrow>
   createBook st p t1 t2 = (conflict, st)"
  by (auto simp: createBook_def find_None_iff split: option.splits)

lemma createBook_ok:
  "\<forall>b\<in>set (books st). \<not> sameTitleAuthor (title p) (author p) b \<Longrightarrow>
   createBook st p t1 t2 =
     (\<lparr>status = 201, success = True,
       reply = MessageData ''Book created successfully''
         \<lparr>title = trim (title p), author = trim (author p), genre = trim (genre p),
          publicationYear = parseInt (publicationYear p),
          description = trim (description p),
          ident = nextId st, createdAt = t1, updatedAt = t2\<rparr>\<rparr>,
      \<lparr>books = books st @
         [\<lparr>title = trim (title p), author = trim (author p), genre = trim (genre p),
           publicationYear = parseInt (publicationYear p),
           description = trim (description p),
           ident = nextId st, createdAt = t1, updatedAt = t2\<rparr>],
       nextId = nextId st + 1\<rparr>)"
proof -
  assume "\<forall>b\<in>set (books st). \<not> sameTitleAuthor (title p) (author p) b"
  then have "find (sameTitleAuthor (title p) (author p)) (books st) = None"
    by (simp add: find_None_iff)
  then show ?thesis by (simp add: createBook_def Let_def)
qed

lemma findBookById_Some:
  assumes "findBookById bs i = Some old"
  shows "old \<in> set bs" "Some (ident old) = parseInt i"
    "\<exists>k. findIndex (\<lambda>b. Some (ident b) = parseInt i) bs = Some k \<and> bs ! k = old"
  using assms unfolding findBookById_def
    apply (auto simp: find_Some_iff)[2]
  using assms unfolding findBookById_def find_findIndex
  apply auto
  done



section \<open>Updating a record: conflicts\<close>

lemma sameTitleAuthor_key:
  "sameTitleAuthor t a b \<longleftrightarrow> titleAuthorKey b = (toLowerCase t, toLowerCase a)"
  by (auto simp: sameTitleAuthor_def titleAuthorKey_def)



section \<open>Validation errors\<close>




section \<open>Search\<close>








section \<open>The id path segment\<close>












section \<open>What a request does to the store\<close>

lemma deleteBook_found:
  "findIndex (\<lambda>b. Some (ident b) = parseInt i) (books st) = Some k \<Longrightarrow>
   deleteBook st i =
     (\<lparr>status = 200, success = True,
       reply = MessageData ''Book deleted successfully'' (books st ! k)\<rparr>,
      st\<lparr>books := take k (books st) @ drop (Suc k) (books st)\<rparr>)"
  by (simp add: deleteBook_def)

lemma deleteBook_notFound:
  "findIndex (\<lambda>b. Some (ident b) = parseInt i) (books st) = None \<Longrightarrow>
   deleteBook st i = (notFound, st)"
  by (simp add: deleteBook_def)

text \<open>A create leaves the store as it is or appends a record with the next id.\<close>

lemma postBooks_shape:
  "(snd (postBooks yr st p t1 t2) = st \<and> status (fst (postBooks yr st p t1 t2)) \<noteq> 201
      \<and> booksOf (reply (fst (postBooks yr st p t1 t2))) = [])
   \<or> (\<exists>new. postBooks yr st p t1 t2 =
          (\<lparr>status = 201, success = True,
            reply = MessageData ''Book created successfully'' new\<rparr>,
           \<lparr>books = books st @ [new], nextId = nextId st + 1\<rparr>)
        \<and> ident new = nextId st \<and> createdAt new = t1 \<and> updatedAt new = t2
        \<and> titleAuthorKey new \<notin> titleAuthorKey ` set (books st))"
proof (cases "bookValidation yr p = []")
  case False
  then show ?thesis by (simp add: postBooks_invalid)
next
  case True
  note eq = postBooks_valid [OF True]
  show ?thesis
  proof (cases "\<exists>b\<in>set (books st). sameTitleAuthor (title (sanitize p)) (author (sanitize p)) b")
    case True
    from createBook_conflict [OF this] show ?thesis
      by (simp add: eq conflict_def)
  next
    case False
    then have n: "\<forall>b\<in>set (books st). \<not> sameTitleAuthor (title (sanitize p)) (author (sanitize p)) b"
      by simp
    from n have "\<forall>b\<in>set (books st).
        titleAuthorKey b \<noteq> (toLowerCase (trim (title p)), toLowerCase (trim (author p)))"
      by (simp add: sameTitleAuthor_key sanitize_simps)
    then have "(toLowerCase (trim (title p)), toLowerCase (trim (author p)))
        \<notin> titleAuthorKey ` set (books st)"
      by auto
    then show ?thesis
      unfolding eq createBook_ok [OF n]
      by (simp add: titleAuthorKey_def sanitize_simps trim_trim)
  qed
qed

text \<open>
  An update leaves the store as it is or replaces one record by a record of the same id
  and \<open>createdAt\<close>, the pair of which no record of another id has.
\<close>

lemma putBook_shape:
  "(snd (putBook yr st i p t) = st \<and> status (fst (putBook yr st i p t)) \<noteq> 201
      \<and> status (fst (putBook yr st i p t)) \<noteq> 200
      \<and> booksOf (reply (fst (putBook yr st i p t))) = [])
   \<or> (\<exists>k new. putBook yr st i p t =
          (\<lparr>status = 200, success = True,
            reply = MessageData ''Book updated successfully'' new\<rparr>,
           st\<lparr>books := (books st)[k := new]\<rparr>)
        \<and> k < length (books st) \<and> Some (ident (books st ! k)) = parseInt i
        \<and> ident new = ident (books st ! k) \<and> createdAt new = createdAt (books st ! k)
        \<and> updatedAt new = t
        \<and> (\<forall>b\<in>set (books st). ident b \<noteq> ident (books st ! k)
              \<longrightarrow> titleAuthorKey b \<noteq> titleAuthorKey new))"
proof (cases "bookValidation yr p = []")
  case False
  then show ?thesis by (simp add: putBook_invalid)
next
  case True
  note eq = putBook_valid [OF True]
  let ?P = "\<lambda>b. Some (ident b) = parseInt i"
  show ?thesis
  proof (cases "findIndex ?P (books st)")
    case None
    from updateBook_notFound [OF this] show ?thesis
      by (simp add: eq notFound_def)
  next
    case (Some k)
    from findIndex_Some [OF Some] have kl: "k < length (books st)"
      and kid: "Some (ident (books st ! k)) = parseInt i"
      by simp_all
    show ?thesis
    proof (cases "\<exists>b\<in>set (books st). Some (ident b) \<noteq> parseInt i
        \<and> sameTitleAuthor (title (sanitize p)) (author (sanitize p)) b")
      case True
      from updateBook_conflict [OF Some this] show ?thesis
        by (simp add: eq conflict_def)
    next
      case False
      then have n: "\<forall>b\<in>set (books st).
          sameTitleAuthor (title (sanitize p)) (author (sanitize p)) b \<longrightarrow> Some (ident b) = parseInt i"
        by blast
      define new where "new = (books st ! k)
          \<lparr>title := trim (title (sanitize p)), author := trim (author (sanitize p)),
           genre := trim (genre (sanitize p)),
           publicationYear := parseInt (publicationYear (sanitize p)),
           description := trim (description (sanitize p)), updatedAt := t\<rparr>"
      have key: "titleAuthorKey new = (toLowerCase (trim (title p)), toLowerCase (trim (author p)))"
        by (simp add: new_def titleAuthorKey_def sanitize_simps trim_trim)
      have other: "titleAuthorKey b \<noteq> titleAuthorKey new"
        if "b \<in> set (books st)" "ident b \<noteq> ident (books st ! k)" for b
        unfolding key using that n kid
        by (metis option.inject sameTitleAuthor_key sanitize_simps(1,2))
      have "putBook yr st i p t =
          (\<lparr>status = 200, success = True,
            reply = MessageData ''Book updated successfully'' new\<rparr>,
           st\<lparr>books := (books st)[k := new]\<rparr>)"
        unfolding eq new_def by (rule updateBook_ok [OF Some n])
      moreover have "ident new = ident (books st ! k)" "createdAt new = createdAt (books st ! k)"
        "updatedAt new = t"
        by (simp_all add: new_def)
      ultimately show ?thesis
        using kl kid other by blast
    qed
  qed
qed

text \<open>A delete leaves the store as it is or takes one record out.\<close>

lemma deleteBook_shape:
  "(snd (deleteBook st i) = st \<and> status (fst (deleteBook st i)) \<noteq> 201
      \<and> booksOf (reply (fst (deleteBook st i))) = [])
   \<or> (\<exists>k. deleteBook st i =
          (\<lparr>status = 200, success = True,
            reply = MessageData ''Book deleted successfully'' (books st ! k)\<rparr>,
           st\<lparr>books := take k (books st) @ drop (Suc k) (books st)\<rparr>)
        \<and> k < length (books st))"
proof (cases "findIndex (\<lambda>b. Some (ident b) = parseInt i) (books st)")
  case None
  from deleteBook_notFound [OF this] show ?thesis by (simp add: notFound_def)
next
  case (Some k)
  from findIndex_Some [OF Some] have "k < length (books st)" by simp
  with deleteBook_found [OF Some] show ?thesis by blast
qed

subsection \<open>Lists with distinct keys\<close>


lemma distinct_take_drop: "distinct xs \<Longrightarrow> distinct (take k xs @ drop (Suc k) xs)"
  using set_take_disj_set_drop_if_distinct [of xs k "Suc k"] by simp

lemma distinct_map_take_drop:
  "distinct (map f xs) \<Longrightarrow> distinct (map f (take k xs @ drop (Suc k) xs))"
  using distinct_take_drop [of "map f xs" k] by (simp add: take_map drop_map)

lemma set_take_drop: "set (take k xs @ drop (Suc k) xs) \<subseteq> set xs"
  by (auto dest: in_set_takeD in_set_dropD)

section \<open>The counter\<close>

text \<open>
  What one request does to the counter and to the ids of the store: the counter stays or
  goes up by one, in which case the response is the 201 of a create that returns the old
  value of the counter; every id of the new store is in the old store or is the old value
  of the counter; every record of the response is in the old or in the new store.
\<close>

lemma handle_counter:
  "(nextId (snd (handle yr st r)) = nextId st \<and> createdIds [fst (handle yr st r)] = []
      \<and> ident ` set (books (snd (handle yr st r))) \<subseteq> ident ` set (books st))
   \<or> (nextId (snd (handle yr st r)) = nextId st + 1
      \<and> createdIds [fst (handle yr st r)] = [nextId st]
      \<and> ident ` set (books (snd (handle yr st r))) \<subseteq> insert (nextId st) (ident ` set (books st)))"
proof (cases r)
  case GetBooks
  then show ?thesis by (simp add: getBooks_def)
next
  case (GetBook i)
  then show ?thesis by (simp add: getBook_def notFound_def split: option.splits)
next
  case (SearchBooks q)
  then show ?thesis by (simp add: searchBooks_def Let_def)
next
  case (PostBooks p t1 t2)
  from postBooks_shape [of yr st p t1 t2] show ?thesis
  proof (elim disjE conjE exE)
    assume "snd (postBooks yr st p t1 t2) = st" "status (fst (postBooks yr st p t1 t2)) \<noteq> 201"
    with PostBooks show ?thesis by simp
  next
    fix new
    assume "postBooks yr st p t1 t2 =
          (\<lparr>status = 201, success = True,
            reply = MessageData ''Book created successfully'' new\<rparr>,
           \<lparr>books = books st @ [new], nextId = nextId st + 1\<rparr>)" "ident new = nextId st"
    with PostBooks show ?thesis by auto
  qed
next
  case (PutBook i p t)
  from putBook_shape [of yr st i p t] show ?thesis
  proof (elim disjE conjE exE)
    assume "snd (putBook yr st i p t) = st" "status (fst (putBook yr st i p t)) \<noteq> 201"
    with PutBook show ?thesis by simp
  next
    fix k new
    assume eq: "putBook yr st i p t =
          (\<lparr>status = 200, success = True,
            reply = MessageData ''Book updated successfully'' new\<rparr>,
           st\<lparr>books := (books st)[k := new]\<rparr>)"
      and k: "k < length (books st)" "ident new = ident (books st ! k)"
    then have "map ident ((books st)[k := new]) = map ident (books st)"
      by (simp add: map_update list_update_same_conv)
    then have "ident ` set ((books st)[k := new]) = ident ` set (books st)"
      by (metis set_map)
    with PutBook eq show ?thesis by simp
  qed
next
  case (DeleteBook i)
  from deleteBook_shape [of st i] show ?thesis
  proof (elim disjE conjE exE)
    assume "snd (deleteBook st i) = st" "status (fst (deleteBook st i)) \<noteq> 201"
    with DeleteBook show ?thesis by simp
  next
    fix k
    assume eq: "deleteBook st i =
          (\<lparr>status = 200, success = True,
            reply = MessageData ''Book deleted successfully'' (books st ! k)\<rparr>,
           st\<lparr>books := take k (books st) @ drop (Suc k) (books st)\<rparr>)"
    have "ident ` set (take k (books st) @ drop (Suc k) (books st)) \<subseteq> ident ` set (books st)"
      using set_take_drop [of k "books st"] by blast
    with DeleteBook eq show ?thesis by simp
  qed
qed

lemma handle_reply_books:
  "set (booksOf (reply (fst (handle yr st r))))
     \<subseteq> set (books st) \<union> set (books (snd (handle yr st r)))"
proof (cases r)
  case GetBooks
  then show ?thesis by (simp add: getBooks_def)
next
  case (GetBook i)
  then show ?thesis
    by (auto simp: getBook_def notFound_def findBookById_def find_Some_iff split: option.splits)
next
  case (SearchBooks q)
  then show ?thesis by (simp add: searchBooks_def Let_def)
next
  case (PostBooks p t1 t2)
  from postBooks_shape [of yr st p t1 t2] PostBooks show ?thesis by auto
next
  case (PutBook i p t)
  from putBook_shape [of yr st i p t] show ?thesis
  proof (elim disjE conjE exE)
    assume "booksOf (reply (fst (putBook yr st i p t))) = []"
    with PutBook show ?thesis by simp
  next
    fix k new
    assume eq: "putBook yr st i p t =
          (\<lparr>status = 200, success = True,
            reply = MessageData ''Book updated successfully'' new\<rparr>,
           st\<lparr>books := (books st)[k := new]\<rparr>)"
      and k: "k < length (books st)"
    then have "new \<in> set ((books st)[k := new])" by (simp add: set_update_memI)
    with PutBook eq show ?thesis by simp
  qed
next
  case (DeleteBook i)
  from deleteBook_shape [of st i] DeleteBook show ?thesis by auto
qed

lemma nextId_handle: "nextId st \<le> nextId (snd (handle yr st r))"
  using handle_counter [of yr st r] by auto

lemma nextId_run: "nextId st \<le> nextId (run yr st rs)"
proof (induction rs arbitrary: st)
  case Nil
  show ?case by simp
next
  case (Cons r rs)
  from nextId_handle [of st yr r] Cons [of "snd (handle yr st r)"] show ?case by simp
qed

lemma run_append: "run yr st (rs @ rs') = run yr (run yr st rs) rs'"
  by (induction rs arbitrary: st) simp_all

text \<open>The ids that the creates of a run return are the values the counter passes through.\<close>

lemma createdIds_run:
  "createdIds (responses yr st rs) = [nextId st .. nextId (run yr st rs) - 1]"
proof (induction rs arbitrary: st)
  case Nil
  show ?case by simp
next
  case (Cons r rs)
  let ?st = "snd (handle yr st r)"
  have "createdIds (responses yr st (r # rs))
      = createdIds [fst (handle yr st r)] @ createdIds (responses yr ?st rs)"
    by simp
  also have "\<dots> = createdIds [fst (handle yr st r)] @ [nextId ?st .. nextId (run yr ?st rs) - 1]"
    by (simp only: Cons.IH)
  also have "\<dots> = [nextId st .. nextId (run yr ?st rs) - 1]"
    using handle_counter [of yr st r] nextId_run [of ?st yr rs]
    by (auto simp: upto_rec1 [of "nextId st"])
  finally show ?case by simp
qed

lemma wfStore_handle:
  assumes "wfStore st"
  shows "wfStore (snd (handle yr st r))"
proof -
  let ?st = "snd (handle yr st r)"
  from assms have d: "distinct (map ident (books st))"
    and lt: "\<forall>b\<in>set (books st). ident b < nextId st"
    by (simp_all add: wfStore_def list_all_iff)
  from handle_counter [of yr st r] lt have "\<forall>b\<in>set (books ?st). ident b < nextId ?st"
    by (elim disjE conjE) fastforce+
  moreover have "distinct (map ident (books ?st))"
  proof (cases r)
    case (PostBooks p t1 t2)
    from postBooks_shape [of yr st p t1 t2] d lt PostBooks show ?thesis
      by (elim disjE conjE exE) auto
  next
    case (PutBook i p t)
    from putBook_shape [of yr st i p t] show ?thesis
    proof (elim disjE conjE exE)
      assume "snd (putBook yr st i p t) = st"
      with d PutBook show ?thesis by simp
    next
      fix k new
      assume eq: "putBook yr st i p t =
          (\<lparr>status = 200, success = True,
            reply = MessageData ''Book updated successfully'' new\<rparr>,
           st\<lparr>books := (books st)[k := new]\<rparr>)"
        and k: "k < length (books st)" "ident new = ident (books st ! k)"
      then have "map ident ((books st)[k := new]) = map ident (books st)"
        by (simp add: map_update list_update_same_conv)
      with d PutBook eq show ?thesis by simp
    qed
  next
    case (DeleteBook i)
    from deleteBook_shape [of st i] show ?thesis
    proof (elim disjE conjE exE)
      assume "snd (deleteBook st i) = st"
      with d DeleteBook show ?thesis by simp
    next
      fix k
      assume eq: "deleteBook st i =
          (\<lparr>status = 200, success = True,
            reply = MessageData ''Book deleted successfully'' (books st ! k)\<rparr>,
           st\<lparr>books := take k (books st) @ drop (Suc k) (books st)\<rparr>)"
      from distinct_map_take_drop [OF d, of k] show ?thesis
        by (simp add: DeleteBook eq)
    qed
  qed (use d in simp_all)
  ultimately show ?thesis by (simp add: wfStore_def list_all_iff)
qed

lemma wfStore_run: "wfStore st \<Longrightarrow> wfStore (run yr st rs)"
  by (induction rs arbitrary: st) (simp_all add: wfStore_handle)

lemma wfStore_seed: "wfStore (seed clk)"
  by (simp add: wfStore_def seed_def seedBooks_def)

subsection \<open>Ids are assigned once\<close>

text \<open>
  Claim C5. Take any list of requests served from the seed state and a create that
  succeeds (status 201) after them. The id of the record it returns is greater than every
  id assigned before: the ids of the seed records, the ids returned by the successful
  creates of the run, and the id of every record that was in the store after any number of
  the requests, deleted since or not. So no id is assigned twice.
\<close>

theorem created_id_above_every_earlier_id:
  assumes "status (fst (postBooks yr (run yr (seed clk) rs) p t1 t2)) = 201"
  shows "\<exists>new. reply (fst (postBooks yr (run yr (seed clk) rs) p t1 t2))
                 = MessageData ''Book created successfully'' new
      \<and> (\<forall>m\<in>set (map ident (seedBooks clk) @ createdIds (responses yr (seed clk) rs)).
            m < ident new)
      \<and> (\<forall>k\<le>length rs. \<forall>b\<in>set (books (run yr (seed clk) (take k rs))).
            ident b < ident new)"
proof -
  let ?st = "run yr (seed clk) rs"
  from postBooks_shape [of yr ?st p t1 t2] assms obtain new where
    eq: "postBooks yr ?st p t1 t2 =
          (\<lparr>status = 201, success = True,
            reply = MessageData ''Book created successfully'' new\<rparr>,
           \<lparr>books = books ?st @ [new], nextId = nextId ?st + 1\<rparr>)"
    and new: "ident new = nextId ?st"
    by blast
  have four: "4 \<le> nextId ?st"
    using nextId_run [of "seed clk" yr rs] by (simp add: seed_def)
  have 1: "\<forall>m\<in>set (map ident (seedBooks clk)). m < ident new"
    using four new by (simp add: seedBooks_def)
  have 2: "\<forall>m\<in>set (createdIds (responses yr (seed clk) rs)). m < ident new"
    using new by (simp add: createdIds_run)
  have 3: "\<forall>b\<in>set (books (run yr (seed clk) (take k rs))). ident b < ident new" for k
  proof -
    let ?mid = "run yr (seed clk) (take k rs)"
    have "wfStore ?mid" by (rule wfStore_run [OF wfStore_seed])
    then have "\<forall>b\<in>set (books ?mid). ident b < nextId ?mid"
      by (simp add: wfStore_def list_all_iff)
    moreover have "?st = run yr ?mid (drop k rs)"
      by (simp add: run_append [symmetric])
    then have "nextId ?mid \<le> nextId ?st"
      using nextId_run [of ?mid yr "drop k rs"] by simp
    ultimately show ?thesis using new by fastforce
  qed
  from 1 2 3 show ?thesis
    unfolding eq by (intro exI [of _ new]) auto
qed

theorem created_id_above_every_earlier_id_witness:
  "status (fst (postBooks 2026
      (run 2026 (seed loadClock) [PostBooks dune 6 7, DeleteBook ''2'']) hobbit 8 8)) = 201
   \<and> map ident (booksOf (reply (fst (postBooks 2026
      (run 2026 (seed loadClock) [PostBooks dune 6 7, DeleteBook ''2'']) hobbit 8 8)))) = [5]
   \<and> createdIds (responses 2026 (seed loadClock) [PostBooks dune 6 7, DeleteBook ''2'']) = [4]
   \<and> (\<exists>new. reply (fst (postBooks 2026
          (run 2026 (seed loadClock) [PostBooks dune 6 7, DeleteBook ''2'']) hobbit 8 8))
                 = MessageData ''Book created successfully'' new
      \<and> 2 < ident new \<and> 4 < ident new)"
proof -
  have h: "status (fst (postBooks 2026
      (run 2026 (seed loadClock) [PostBooks dune 6 7, DeleteBook ''2'']) hobbit 8 8)) = 201"
    by code_simp
  have i: "map ident (booksOf (reply (fst (postBooks 2026
      (run 2026 (seed loadClock) [PostBooks dune 6 7, DeleteBook ''2'']) hobbit 8 8)))) = [5]"
    by code_simp
  have c: "createdIds (responses 2026 (seed loadClock) [PostBooks dune 6 7, DeleteBook ''2'']) = [4]"
    by code_simp
  have s: "map ident (seedBooks loadClock) = [1, 2, 3]"
    by (simp add: seedBooks_def)
  from created_id_above_every_earlier_id [OF h] obtain new where
    "reply (fst (postBooks 2026
          (run 2026 (seed loadClock) [PostBooks dune 6 7, DeleteBook ''2'']) hobbit 8 8))
       = MessageData ''Book created successfully'' new"
    "\<forall>m\<in>set (map ident (seedBooks loadClock)
        @ createdIds (responses 2026 (seed loadClock) [PostBooks dune 6 7, DeleteBook ''2''])).
       m < ident new"
    by blast
  then have "\<exists>new. reply (fst (postBooks 2026
          (run 2026 (seed loadClock) [PostBooks dune 6 7, DeleteBook ''2'']) hobbit 8 8))
                 = MessageData ''Book created successfully'' new
      \<and> 2 < ident new \<and> 4 < ident new"
    unfolding s c by auto
  with h i c show ?thesis by blast
qed

section \<open>The invariants along a run\<close>

subsection \<open>Distinct pairs of title and author\<close>




subsection \<open>Timestamps under a clock that does not go back\<close>








section \<open>Deleting a record\<close>

lemma absent_handle:
  assumes "x < nextId st" and "x \<notin> ident ` set (books st)"
  shows "x < nextId (snd (handle yr st r))" "x \<notin> ident ` set (books (snd (handle yr st r)))"
    "\<forall>b\<in>set (booksOf (reply (fst (handle yr st r)))). ident b \<noteq> x"
proof -
  from handle_counter [of yr st r] assms
  show 1: "x < nextId (snd (handle yr st r))"
    and 2: "x \<notin> ident ` set (books (snd (handle yr st r)))"
    by (elim disjE conjE; fastforce)+
  from handle_reply_books [of yr st r] assms(2) 2
  show "\<forall>b\<in>set (booksOf (reply (fst (handle yr st r)))). ident b \<noteq> x"
    by blast
qed

lemma absent_run:
  assumes "x < nextId st" and "x \<notin> ident ` set (books st)"
  shows "x \<notin> ident ` set (books (run yr st rs))
    \<and> (\<forall>r\<in>set (responses yr st rs). \<forall>b\<in>set (booksOf (reply r)). ident b \<noteq> x)"
  using assms
proof (induction rs arbitrary: st)
  case Nil
  then show ?case by simp
next
  case (Cons r rs)
  note a = absent_handle [OF Cons.prems, of yr r]
  from Cons.IH [OF a(1,2)] a(3) show ?case by simp
qed

lemma getBook_absent:
  assumes "parseInt i = Some x" and "x \<notin> ident ` set (books st)"
  shows "getBook st i = notFound"
proof -
  from assms have "find (\<lambda>b. Some (ident b) = parseInt i) (books st) = None"
    by (auto simp: find_None_iff)
  then show ?thesis by (simp add: getBook_def findBookById_def)
qed

text \<open>
  Claim C8. A delete whose id names no record answers 404 and leaves the store as it is. A
  delete whose id names the record \<open>old\<close> answers 200 with \<open>old\<close> as data and takes \<open>old\<close>,
  and nothing else, out of the list, the records before and after it staying in their
  order. If the store had distinct ids below the counter (every store reached from the
  seed has, by \<open>wfStore_run\<close> and \<open>wfStore_seed\<close>), then after the delete, whatever
  requests follow, a get with that id answers 404, no record of the store has the id of
  \<open>old\<close>, and no response (of a list, a search or any other request) carries a record
  with that id.
\<close>

theorem delete_removes_exactly_that_record:
  "(findBookById (books st) i = None \<longrightarrow>
            deleteBook st i = (notFound, st) \<and> status (fst (deleteBook st i)) = 404)
   \<and> (\<forall>old. findBookById (books st) i = Some old \<longrightarrow>
        fst (deleteBook st i) =
          \<lparr>status = 200, success = True,
           reply = MessageData ''Book deleted successfully'' old\<rparr>
        \<and> (\<exists>pre post. books st = pre @ old # post
              \<and> books (snd (deleteBook st i)) = pre @ post)
        \<and> nextId (snd (deleteBook st i)) = nextId st
        \<and> (wfStore st \<longrightarrow> (\<forall>rs.
              getBook (run yr (snd (deleteBook st i)) rs) i = notFound
              \<and> (\<forall>b\<in>set (books (run yr (snd (deleteBook st i)) rs)). ident b \<noteq> ident old)
              \<and> (\<forall>r\<in>set (responses yr (snd (deleteBook st i)) rs).
                    \<forall>b\<in>set (booksOf (reply r)). ident b \<noteq> ident old))))"
proof (intro conjI impI allI)
  assume "findBookById (books st) i = None"
  then have "findIndex (\<lambda>b. Some (ident b) = parseInt i) (books st) = None"
    by (simp add: findBookById_def find_findIndex)
  from deleteBook_notFound [OF this]
  show "deleteBook st i = (notFound, st)" "status (fst (deleteBook st i)) = 404"
    by (simp_all add: notFound_def)
next
  fix old
  assume f: "findBookById (books st) i = Some old"
  from findBookById_Some [OF f] obtain k where
    pid: "Some (ident old) = parseInt i" and
    k: "findIndex (\<lambda>b. Some (ident b) = parseInt i) (books st) = Some k" and
    old: "books st ! k = old"
    by blast
  from findIndex_Some [OF k] have kl: "k < length (books st)" by simp
  let ?st = "snd (deleteBook st i)"
  note eq = deleteBook_found [OF k]
  have split: "books st = take k (books st) @ old # drop (Suc k) (books st)"
    using id_take_nth_drop [OF kl] old by simp
  have bs: "books ?st = take k (books st) @ drop (Suc k) (books st)"
    by (simp add: eq)
  show "fst (deleteBook st i) =
          \<lparr>status = 200, success = True,
           reply = MessageData ''Book deleted successfully'' old\<rparr>"
    by (simp add: eq old)
  show "\<exists>pre post. books st = pre @ old # post \<and> books ?st = pre @ post"
    using split bs by blast
  show n: "nextId ?st = nextId st" by (simp add: eq)
  assume w: "wfStore st"
  from w have d: "distinct (map ident (books st))"
    and lt: "\<forall>b\<in>set (books st). ident b < nextId st"
    by (simp_all add: wfStore_def list_all_iff)
  from d split have "distinct (map ident (take k (books st) @ old # drop (Suc k) (books st)))"
    by simp
  then have gone: "ident old \<notin> ident ` set (books ?st)"
    unfolding bs by auto
  have "old \<in> set (books st)" using kl old by auto
  with lt n have below: "ident old < nextId ?st" by simp
  fix rs
  note a = absent_run [OF below gone, of yr rs]
  from a show "\<forall>b\<in>set (books (run yr ?st rs)). ident b \<noteq> ident old" by (metis imageI)
  from a show "\<forall>r\<in>set (responses yr ?st rs). \<forall>b\<in>set (booksOf (reply r)). ident b \<noteq> ident old"
    by blast
  from a show "getBook (run yr ?st rs) i = notFound"
    by (intro getBook_absent [OF pid [symmetric]]) simp
qed

theorem delete_removes_exactly_that_record_witness:
  "wfStore (seed loadClock)
   \<and> findBookById (books (seed loadClock)) ''2'' = Some (seedBooks loadClock ! 1)
   \<and> findBookById (books (seed loadClock)) ''7'' = None
   \<and> deleteBook (seed loadClock) ''7'' = (notFound, seed loadClock)
   \<and> status (fst (deleteBook (seed loadClock) ''2'')) = 200
   \<and> getBook (run 2026 (snd (deleteBook (seed loadClock) ''2'')) [PostBooks dune 6 7]) ''2''
       = notFound"
proof -
  have w: "wfStore (seed loadClock)" by (rule wfStore_seed)
  have f: "findBookById (books (seed loadClock)) ''2'' = Some (seedBooks loadClock ! 1)"
    by code_simp
  have g: "findBookById (books (seed loadClock)) ''7'' = None" by code_simp
  from delete_removes_exactly_that_record [of "seed loadClock" "''2''" 2026] f w
  have "fst (deleteBook (seed loadClock) ''2'') =
          \<lparr>status = 200, success = True,
           reply = MessageData ''Book deleted successfully'' (seedBooks loadClock ! 1)\<rparr>"
    and "getBook (run 2026 (snd (deleteBook (seed loadClock) ''2'')) [PostBooks dune 6 7]) ''2''
       = notFound"
    by blast+
  moreover from delete_removes_exactly_that_record [of "seed loadClock" "''7''" 2026] g
  have "deleteBook (seed loadClock) ''7'' = (notFound, seed loadClock)" by blast
  ultimately show ?thesis using w f g by simp
qed

section \<open>Create, get, update\<close>









end
